theory Spec2Isabelle
  imports Complex_Main
begin

section \<open>The bank of \<open>app.py\<close>\<close>

text \<open>
  The program keeps two SQLite tables, \<open>clients\<close> and \<open>movements\<close>, and works on
  transient \<open>Client\<close> objects built from a row of \<open>clients\<close>. The model passes the
  database around as a value; every method of \<open>Bank\<close> takes it and returns the updated
  one, together with the mutated \<open>Client\<close> object and the lines written by \<open>print\<close>.

  Amounts and balances are Python floats (SQL \<open>REAL\<close>). The model computes with exact
  reals; that is the program's arithmetic wherever the exact result is itself a float
  (\<open>is_float\<close> below), and a statement that gives the balance computed from an
  arbitrary amount asks for it. Infinities and NaN are not values of the model.
  Comparisons and negation of floats are exact.

  An exception is never caught in \<open>app.py\<close>: it ends the method that raises it and, in
  \<open>main\<close>, the program. Every method that can raise returns an \<open>error option\<close> beside
  its results. The logging and \<open>ic\<close> calls write to a log file and to stderr only and
  are left out.
\<close>

subsection \<open>Tables\<close>

text \<open>
  A row of \<open>clients\<close> is \<open>(id, first_name, balance, occupation)\<close>, a row of
  \<open>movements\<close> is \<open>(id, client_id, action, amount)\<close>, as \<open>fetchone\<close> would return them.
  \<open>movements.id\<close> is \<open>AUTOINCREMENT\<close>: SQLite keeps the largest id ever given in
  \<open>sqlite_sequence\<close>, here \<open>movements_seq\<close>.
\<close>

type_synonym client_row = "int \<times> string \<times> real \<times> string option"
type_synonym movement_row = "int \<times> int \<times> string \<times> real"

record Bank =
  clients_table :: "client_row list"
  movements_table :: "movement_row list"
  movements_seq :: int

definition initialize_database :: Bank where
  "initialize_database = \<lparr>clients_table = [], movements_table = [], movements_seq = 0\<rparr>"

text \<open>
  An SQLite \<open>INTEGER\<close> is a signed 64-bit integer. Binding a Python \<open>int\<close> outside that
  range to a \<open>?\<close> of a statement raises \<open>OverflowError\<close> before the statement runs.
\<close>

datatype error = OverflowError

definition sqlite_integer :: "int \<Rightarrow> bool" where
  "sqlite_integer i = (- (2 ^ 63) \<le> i \<and> i < 2 ^ 63)"


text \<open>
  \<open>clients.id\<close> is \<open>INTEGER PRIMARY KEY\<close> without \<open>AUTOINCREMENT\<close>: an insert that
  gives no id takes one more than the largest id in use, and 1 in an empty table.
\<close>

fun next_rowid :: "client_row list \<Rightarrow> int" where
  "next_rowid [] = 1"
| "next_rowid (r # rs) = fold max (map fst rs) (fst r) + 1"

text \<open>\<open>INSERT INTO clients (first_name, balance, occupation) VALUES (?, ?, ?)\<close>\<close>

definition sql_insert_client :: "Bank \<Rightarrow> string \<Rightarrow> real \<Rightarrow> string option \<Rightarrow> Bank" where
  "sql_insert_client db first_name bal occ =
     db\<lparr>clients_table := clients_table db @ [(next_rowid (clients_table db), first_name, bal, occ)]\<rparr>"

text \<open>\<open>DELETE FROM clients WHERE id=?\<close>\<close>

definition sql_delete_client :: "Bank \<Rightarrow> int \<Rightarrow> Bank" where
  "sql_delete_client db cid =
     db\<lparr>clients_table := filter (\<lambda>(i, n, b, oc). i \<noteq> cid) (clients_table db)\<rparr>"

text \<open>\<open>DELETE FROM movements WHERE client_id=?\<close>\<close>

definition sql_delete_movements :: "Bank \<Rightarrow> int \<Rightarrow> Bank" where
  "sql_delete_movements db cid =
     db\<lparr>movements_table := filter (\<lambda>(m, i, act, a). i \<noteq> cid) (movements_table db)\<rparr>"

text \<open>\<open>SELECT * FROM clients WHERE id=?\<close> followed by \<open>fetchone()\<close>\<close>

definition sql_select_client :: "Bank \<Rightarrow> int \<Rightarrow> client_row option" where
  "sql_select_client db cid = find (\<lambda>(i, n, b, oc). i = cid) (clients_table db)"

text \<open>\<open>UPDATE clients SET balance=? WHERE id=?\<close>\<close>

definition sql_update_balance :: "Bank \<Rightarrow> real \<Rightarrow> int \<Rightarrow> Bank" where
  "sql_update_balance db bal cid =
     db\<lparr>clients_table :=
          map (\<lambda>(i, n, b, oc). if i = cid then (i, n, bal, oc) else (i, n, b, oc))
              (clients_table db)\<rparr>"

text \<open>\<open>INSERT INTO movements (client_id, action, amount) VALUES (?, ?, ?)\<close>\<close>

definition sql_insert_movement :: "Bank \<Rightarrow> int \<Rightarrow> string \<Rightarrow> real \<Rightarrow> Bank" where
  "sql_insert_movement db cid act amount =
     db\<lparr>movements_table := movements_table db @ [(movements_seq db + 1, cid, act, amount)],
        movements_seq := movements_seq db + 1\<rparr>"

subsection \<open>The \<open>Client\<close> object\<close>

text \<open>
  The entries of \<open>Client.movements\<close> are formatted strings; the model keeps the template
  and the interpolated values:
  \<open>Withdrawn a\<close> is \<open>f"Withdrawn: -{a}"\<close>, \<open>Deposited a\<close> is \<open>f"Deposited: +{a}"\<close>,
  \<open>Transfer_to i a\<close> is \<open>f"Transfer to {i}: -{a}"\<close> and
  \<open>Transfer_from i a\<close> is \<open>f"Transfer from {i}: +{a}"\<close>.
\<close>

datatype memo =
    Withdrawn real
  | Deposited real
  | Transfer_to int real
  | Transfer_from int real

record Client =
  client_id :: int
  first_name :: string
  balance :: real
  occupation :: "string option"
  movements :: "memo list"

text \<open>\<open>Client(*client_data)\<close>: the constructor starts \<open>movements\<close> as the empty list.\<close>

fun Client_init :: "client_row \<Rightarrow> Client" where
  "Client_init (i, n, b, oc) =
     \<lparr>client_id = i, first_name = n, balance = b, occupation = oc, movements = []\<rparr>"

subsection \<open>Printed lines\<close>

text \<open>
  What the methods write with \<open>print\<close>:
  \<open>Insufficient_funds\<close> is \<open>"Insufficient funds."\<close>,
  \<open>Transfer_target_not_found\<close> is \<open>"Client to transfer to not found."\<close>,
  \<open>Client_not_found\<close> is \<open>"Client not found."\<close>,
  \<open>Balance_line i b\<close> is \<open>f"Client ID {i} balance: {b}"\<close>,
  \<open>Movements_header i\<close> is \<open>f"Client ID {i} movements:"\<close>,
  \<open>Movement_line m\<close> is one entry of \<open>Client.movements\<close>,
  \<open>Client_line r\<close> is a row of \<open>clients\<close> and
  \<open>Total_clients k\<close> is \<open>f"Total clients: {k}"\<close>.
\<close>

datatype printed =
    Insufficient_funds
  | Transfer_target_not_found
  | Client_not_found
  | Balance_line int real
  | Movements_header int
  | Movement_line memo
  | Client_line client_row
  | Total_clients nat

subsection \<open>Methods of \<open>Bank\<close>\<close>

definition create_account :: "Bank \<Rightarrow> string \<Rightarrow> string option \<Rightarrow> Bank" where
  "create_account db name occ = sql_insert_client db name 0 occ"

text \<open>The first \<open>DELETE\<close> binds \<open>client_id\<close> and raises before anything is deleted.\<close>

definition close_account :: "Bank \<Rightarrow> int \<Rightarrow> Bank \<times> error option" where
  "close_account db cid =
     (if sqlite_integer cid
      then (sql_delete_movements (sql_delete_client db cid) cid, None)
      else (db, Some OverflowError))"

definition show_all_clients :: "Bank \<Rightarrow> printed list" where
  "show_all_clients db = map Client_line (clients_table db)"

definition count_clients :: "Bank \<Rightarrow> printed list" where
  "count_clients db = [Total_clients (length (clients_table db))]"

text \<open>\<open>Inl\<close> is the exception of the \<open>SELECT\<close>, \<open>Inr None\<close> the result \<open>None\<close>.\<close>

definition find_client :: "Bank \<Rightarrow> int \<Rightarrow> error + Client option" where
  "find_client db cid =
     (if sqlite_integer cid then
        (case sql_select_client db cid of
           Some client_data \<Rightarrow> Inr (Some (Client_init client_data))
         | None \<Rightarrow> Inr None)
      else Inl OverflowError)"

text \<open>
  The methods on a client change the object first and then run their statements. The
  first statement binds \<open>client.id\<close>: when it raises, the object is changed and the
  database is not.
\<close>

definition client_withdraw ::
  "Bank \<Rightarrow> Client \<Rightarrow> real \<Rightarrow> Bank \<times> Client \<times> printed list \<times> error option" where
  "client_withdraw db client amount =
     (if amount \<le> balance client then
        let client = client\<lparr>balance := balance client - amount\<rparr>;
            client = client\<lparr>movements := movements client @ [Withdrawn amount]\<rparr>
        in if sqlite_integer (client_id client) then
             let db = sql_update_balance db (balance client) (client_id client);
                 db = sql_insert_movement db (client_id client) ''Withdraw'' (- amount)
             in (db, client, [], None)
           else (db, client, [], Some OverflowError)
      else (db, client, [Insufficient_funds], None))"

definition client_deposit ::
  "Bank \<Rightarrow> Client \<Rightarrow> real \<Rightarrow> Bank \<times> Client \<times> printed list \<times> error option" where
  "client_deposit db client amount =
     (let client = client\<lparr>balance := balance client + amount\<rparr>;
          client = client\<lparr>movements := movements client @ [Deposited amount]\<rparr>
      in if sqlite_integer (client_id client) then
           let db = sql_update_balance db (balance client) (client_id client);
               db = sql_insert_movement db (client_id client) ''Deposit'' amount
           in (db, client, [], None)
         else (db, client, [], Some OverflowError))"

text \<open>
  \<open>client_to\<close> is a fresh object from \<open>find_client\<close>, also when \<open>client_to_id\<close> is the
  id of \<open>client_from\<close>; it is dropped when the method returns.
\<close>

definition client_transfer ::
  "Bank \<Rightarrow> Client \<Rightarrow> int \<Rightarrow> real \<Rightarrow> Bank \<times> Client \<times> printed list \<times> error option" where
  "client_transfer db client_from client_to_id amount =
     (case find_client db client_to_id of
        Inl e \<Rightarrow> (db, client_from, [], Some e)
      | Inr (Some client_to) \<Rightarrow>
          (if amount \<le> balance client_from then
             let client_from = client_from\<lparr>balance := balance client_from - amount\<rparr>;
                 client_to = client_to\<lparr>balance := balance client_to + amount\<rparr>;
                 client_from = client_from\<lparr>movements :=
                    movements client_from @ [Transfer_to client_to_id amount]\<rparr>;
                 client_to = client_to\<lparr>movements :=
                    movements client_to @ [Transfer_from (client_id client_from) amount]\<rparr>
             in if sqlite_integer (client_id client_from) then
                  let db = sql_update_balance db (balance client_from) (client_id client_from);
                      db = sql_update_balance db (balance client_to) (client_id client_to);
                      db = sql_insert_movement db (client_id client_from)
                             ''Transfer Out'' (- amount);
                      db = sql_insert_movement db (client_id client_to) ''Transfer In'' amount
                  in (db, client_from, [], None)
                else (db, client_from, [], Some OverflowError)
           else (db, client_from, [Insufficient_funds], None))
      | Inr None \<Rightarrow> (db, client_from, [Transfer_target_not_found], None))"

definition client_check_balance :: "Client \<Rightarrow> printed list" where
  "client_check_balance client = [Balance_line (client_id client) (balance client)]"

definition client_show_movements :: "Client \<Rightarrow> printed list" where
  "client_show_movements client =
     Movements_header (client_id client) # map Movement_line (movements client)"

subsection \<open>The menus of \<open>main\<close>\<close>

text \<open>
  A request of the client menu with the values read after it. \<open>EXIT\<close> leaves the inner
  loop: it is the end of the list of requests of one session. An exception leaves both
  loops: the requests after it are not run.
\<close>

datatype ClientActions =
    WITHDRAW real
  | DEPOSIT real
  | TRANSFER int real
  | CHECK_BALANCE
  | SHOW_MOVEMENTS

fun client_action ::
  "Bank \<Rightarrow> Client \<Rightarrow> ClientActions \<Rightarrow> Bank \<times> Client \<times> printed list \<times> error option" where
  "client_action db client (WITHDRAW amount) = client_withdraw db client amount"
| "client_action db client (DEPOSIT amount) = client_deposit db client amount"
| "client_action db client (TRANSFER transfer_id amount) =
     client_transfer db client transfer_id amount"
| "client_action db client CHECK_BALANCE = (db, client, client_check_balance client, None)"
| "client_action db client SHOW_MOVEMENTS = (db, client, client_show_movements client, None)"

fun client_loop ::
  "Bank \<Rightarrow> Client \<Rightarrow> ClientActions list \<Rightarrow> Bank \<times> Client \<times> printed list \<times> error option" where
  "client_loop db client [] = (db, client, [], None)"
| "client_loop db client (a # as) =
     (case client_action db client a of
        (db1, client1, out1, Some e) \<Rightarrow> (db1, client1, out1, Some e)
      | (db1, client1, out1, None) \<Rightarrow>
          (case client_loop db1 client1 as of
             (db2, client2, out2, err) \<Rightarrow> (db2, client2, out1 @ out2, err)))"

text \<open>
  A request of the main menu. \<open>CLIENT_ACTIONS i reqs\<close> carries the requests of the
  session it opens, up to that session's \<open>EXIT\<close>; they are read only when client \<open>i\<close>
  is found. The main menu's \<open>EXIT\<close> is the end of the list.
\<close>

datatype BankActions =
    CREATE_ACCOUNT string "string option"
  | CLOSE_ACCOUNT int
  | SHOW_ALL_CLIENTS
  | COUNT_CLIENTS
  | CLIENT_ACTIONS int "ClientActions list"

fun bank_action :: "Bank \<Rightarrow> BankActions \<Rightarrow> Bank \<times> printed list \<times> error option" where
  "bank_action db (CREATE_ACCOUNT name occ) = (create_account db name occ, [], None)"
| "bank_action db (CLOSE_ACCOUNT cid) =
     (case close_account db cid of (db1, err) \<Rightarrow> (db1, [], err))"
| "bank_action db SHOW_ALL_CLIENTS = (db, show_all_clients db, None)"
| "bank_action db COUNT_CLIENTS = (db, count_clients db, None)"
| "bank_action db (CLIENT_ACTIONS cid reqs) =
     (case find_client db cid of
        Inl e \<Rightarrow> (db, [], Some e)
      | Inr (Some client) \<Rightarrow>
          (case client_loop db client reqs of (db1, client1, out1, err) \<Rightarrow> (db1, out1, err))
      | Inr None \<Rightarrow> (db, [Client_not_found], None))"

fun main_loop :: "Bank \<Rightarrow> BankActions list \<Rightarrow> Bank \<times> printed list \<times> error option" where
  "main_loop db [] = (db, [], None)"
| "main_loop db (a # as) =
     (case bank_action db a of
        (db1, out1, Some e) \<Rightarrow> (db1, out1, Some e)
      | (db1, out1, None) \<Rightarrow>
          (case main_loop db1 as of (db2, out2, err) \<Rightarrow> (db2, out1 @ out2, err)))"

subsection \<open>Observations on the ledger\<close>

text \<open>The persisted balance of an account, if the account exists.\<close>

definition persisted_balance :: "Bank \<Rightarrow> int \<Rightarrow> real option" where
  "persisted_balance db cid =
     (case find_client db cid of
        Inr (Some client) \<Rightarrow> Some (balance client)
      | _ \<Rightarrow> None)"

text \<open>The rows of \<open>movements\<close> owned by an account, in insertion order.\<close>

definition movements_of :: "Bank \<Rightarrow> int \<Rightarrow> movement_row list" where
  "movements_of db cid = filter (\<lambda>(m, i, act, a). i = cid) (movements_table db)"

definition movement_sum :: "Bank \<Rightarrow> int \<Rightarrow> real" where
  "movement_sum db cid = sum_list (map (\<lambda>(m, i, act, a). a) (movements_of db cid))"

text \<open>Every account's balance is the sum of the amounts of its movements.\<close>

definition reconciled :: "Bank \<Rightarrow> bool" where
  "reconciled db = list_all (\<lambda>(i, n, b, oc). b = movement_sum db i) (clients_table db)"

text \<open>No account has a negative balance.\<close>

definition nonneg_balances :: "Bank \<Rightarrow> bool" where
  "nonneg_balances db = list_all (\<lambda>(i, n, b, oc). 0 \<le> b) (clients_table db)"

text \<open>
  A client object is in step with the database when its balance is the persisted one
  of its id. The object \<open>find_client\<close> returns is.
\<close>

definition in_sync :: "Bank \<Rightarrow> Client \<Rightarrow> bool" where
  "in_sync db client = (persisted_balance db (client_id client) = Some (balance client))"

text \<open>Every row of \<open>movements\<close> belongs to an account of \<open>clients\<close>.\<close>

definition movements_owned :: "Bank \<Rightarrow> bool" where
  "movements_owned db =
     list_all (\<lambda>(m, i, act, a). i \<in> fst ` set (clients_table db)) (movements_table db)"

definition ledger_ok :: "Bank \<Rightarrow> bool" where
  "ledger_ok db = (reconciled db \<and> movements_owned db)"

subsection \<open>Kinds of requests\<close>

text \<open>The two requests of the client menu that only read.\<close>

fun is_read :: "ClientActions \<Rightarrow> bool" where
  "is_read CHECK_BALANCE = True"
| "is_read SHOW_MOVEMENTS = True"
| "is_read _ = False"

text \<open>A withdrawal of any amount, or a transfer of an amount that is not negative.\<close>

fun withdraw_or_nonneg_transfer :: "ClientActions \<Rightarrow> bool" where
  "withdraw_or_nonneg_transfer (WITHDRAW amount) = True"
| "withdraw_or_nonneg_transfer (TRANSFER transfer_id amount) = (0 \<le> amount)"
| "withdraw_or_nonneg_transfer _ = False"

text \<open>
  A request of a session of client \<open>cid\<close> that is not a transfer to \<open>cid\<close> itself, and a
  request of the main menu whose session holds no such transfer.
\<close>

fun no_self_transfer :: "int \<Rightarrow> ClientActions \<Rightarrow> bool" where
  "no_self_transfer cid (TRANSFER transfer_id amount) = (transfer_id \<noteq> cid)"
| "no_self_transfer cid _ = True"

fun no_self_transfers :: "BankActions \<Rightarrow> bool" where
  "no_self_transfers (CLIENT_ACTIONS cid reqs) = list_all (no_self_transfer cid) reqs"
| "no_self_transfers _ = True"

text \<open>A request of the main menu other than \<open>CREATE_ACCOUNT\<close>.\<close>

fun creates_no_account :: "BankActions \<Rightarrow> bool" where
  "creates_no_account (CREATE_ACCOUNT name occ) = False"
| "creates_no_account _ = True"

subsection \<open>A small ledger to run the methods on\<close>

text \<open>
  Alice and Bob open accounts and Alice deposits 100: the state after these requests,
  and the object \<open>find_client\<close> builds for Alice in it.
\<close>

definition two_accounts :: "BankActions list" where
  "two_accounts =
     [CREATE_ACCOUNT ''Alice'' None, CREATE_ACCOUNT ''Bob'' None,
      CLIENT_ACTIONS 1 [DEPOSIT 100]]"

definition alice_bob :: Bank where
  "alice_bob = fst (main_loop initialize_database two_accounts)"

definition alice :: Client where
  "alice = \<lparr>client_id = 1, first_name = ''Alice'', balance = 100, occupation = None,
             movements = []\<rparr>"


section \<open>Basic facts about the tables\<close>

lemmas bank_defs =
  initialize_database_def create_account_def close_account_def find_client_def
  client_withdraw_def client_deposit_def client_transfer_def
  client_check_balance_def client_show_movements_def show_all_clients_def count_clients_def
  sql_insert_client_def sql_delete_client_def sql_delete_movements_def sql_select_client_def
  sql_update_balance_def sql_insert_movement_def sqlite_integer_def Let_def

lemma alice_bob_eq:
  "alice_bob =
     \<lparr>clients_table = [(1, ''Alice'', 100, None), (2, ''Bob'', 0, None)],
      movements_table = [(1, 1, ''Deposit'', 100)], movements_seq = 1\<rparr>"
  by (simp add: alice_bob_def two_accounts_def bank_defs)

lemma find_alice: "find_client alice_bob 1 = Inr (Some alice)"
  by (simp add: alice_bob_eq alice_def find_client_def sql_select_client_def
      sqlite_integer_def)


lemma Client_init_sel [simp]:
  "client_id (Client_init r) = fst r"
  "balance (Client_init r) = fst (snd (snd r))"
  "movements (Client_init r) = []"
  by (cases r; simp)+

lemma find_in_set: "find P xs = Some r \<Longrightarrow> r \<in> set xs"
  by (induction xs) (auto split: if_splits)

lemma find_holds: "find P xs = Some r \<Longrightarrow> P r"
  by (induction xs) (auto split: if_splits)

lemma find_client_range: "find_client db x = Inr r \<Longrightarrow> sqlite_integer x"
  by (simp add: find_client_def split: if_splits)

lemma find_client_overflow: "\<not> sqlite_integer x \<Longrightarrow> find_client db x = Inl OverflowError"
  by (simp add: find_client_def)

lemma find_client_id: "find_client db x = Inr (Some c) \<Longrightarrow> client_id c = x"
proof -
  assume "find_client db x = Inr (Some c)"
  then obtain r where r: "find (\<lambda>(i, n, b, oc). i = x) (clients_table db) = Some r"
    and c: "c = Client_init r"
    by (auto simp: find_client_def sql_select_client_def split: if_splits option.splits)
  from find_holds [OF r] c show ?thesis by (cases r) auto
qed

lemma find_client_movements: "find_client db x = Inr (Some c) \<Longrightarrow> movements c = []"
  by (auto simp: find_client_def split: if_splits option.splits)

lemma find_client_insert_movement [simp]:
  "find_client (sql_insert_movement db i act a) x = find_client db x"
  by (simp add: find_client_def sql_select_client_def sql_insert_movement_def)

lemma find_update_rows_same:
  "find (\<lambda>(i, n, b, oc). i = x) rows = Some r \<Longrightarrow>
   find (\<lambda>(i, n, b, oc). i = x)
     (map (\<lambda>(i, n, b, oc). if i = x then (i, n, v, oc) else (i, n, b, oc)) rows)
   = Some (case r of (i, n, b, oc) \<Rightarrow> (i, n, v, oc))"
  by (induction rows) (auto split: if_splits)

lemma find_update_rows_other:
  "x \<noteq> y \<Longrightarrow>
   find (\<lambda>(i, n, b, oc). i = x)
     (map (\<lambda>(i, n, b, oc). if i = y then (i, n, v, oc) else (i, n, b, oc)) rows)
   = find (\<lambda>(i, n, b, oc). i = x) rows"
  by (induction rows) (auto split: if_splits)

lemma find_client_update_same:
  "find_client db x = Inr (Some c) \<Longrightarrow>
   find_client (sql_update_balance db v x) x = Inr (Some (c\<lparr>balance := v\<rparr>))"
  by (auto simp: find_client_def sql_select_client_def sql_update_balance_def
      find_update_rows_same split: if_splits option.splits)

lemma find_client_update_other:
  "x \<noteq> y \<Longrightarrow> find_client (sql_update_balance db v y) x = find_client db x"
  by (simp add: find_client_def sql_select_client_def sql_update_balance_def
      find_update_rows_other)

lemma movements_table_update [simp]:
  "movements_table (sql_update_balance db v x) = movements_table db"
  "movements_seq (sql_update_balance db v x) = movements_seq db"
  by (simp_all add: sql_update_balance_def)

lemma movements_table_insert [simp]:
  "movements_table (sql_insert_movement db i act a) =
     movements_table db @ [(movements_seq db + 1, i, act, a)]"
  "movements_seq (sql_insert_movement db i act a) = movements_seq db + 1"
  by (simp_all add: sql_insert_movement_def)

lemma persisted_find:
  "persisted_balance db y = Some b \<Longrightarrow>
   \<exists>d. find_client db y = Inr (Some d) \<and> balance d = b \<and> client_id d = y"
  by (auto simp: persisted_balance_def split: sum.splits option.splits dest: find_client_id)

lemma persisted_of_find:
  "find_client db y = Inr (Some d) \<Longrightarrow> persisted_balance db y = Some (balance d)"
  by (simp add: persisted_balance_def)

lemma persisted_range: "persisted_balance db y = Some b \<Longrightarrow> sqlite_integer y"
  by (auto dest!: persisted_find dest: find_client_range)

lemma persisted_update_same:
  "persisted_balance db x = Some b \<Longrightarrow>
   persisted_balance (sql_update_balance db v x) x = Some v"
  by (auto dest!: persisted_find simp: persisted_of_find [OF find_client_update_same])

lemma persisted_update_other:
  "x \<noteq> y \<Longrightarrow>
   persisted_balance (sql_update_balance db v y) x = persisted_balance db x"
  by (simp add: persisted_balance_def find_client_update_other)

lemma persisted_insert_movement [simp]:
  "persisted_balance (sql_insert_movement db i act a) x = persisted_balance db x"
  by (simp add: persisted_balance_def)

lemma in_sync_find: "find_client db x = Inr (Some c) \<Longrightarrow> in_sync db c"
  by (simp add: in_sync_def persisted_balance_def find_client_id)


lemma in_sync_range: "in_sync db c \<Longrightarrow> sqlite_integer (client_id c)"
  by (auto simp: in_sync_def dest: persisted_range)




lemma client_deposit_in_sync:
  assumes sync: "in_sync db c"
  shows "\<exists>db' c'. client_deposit db c amount = (db', c', [], None) \<and>
      persisted_balance db' (client_id c) = Some (balance c + amount) \<and>
      client_id c' = client_id c \<and> balance c' = balance c + amount \<and>
      movements c' = movements c @ [Deposited amount] \<and>
      movements_table db' =
        movements_table db @ [(movements_seq db + 1, client_id c, ''Deposit'', amount)] \<and>
      (\<forall>y. y \<noteq> client_id c \<longrightarrow> find_client db' y = find_client db y)"
  using sync in_sync_range [OF sync]
  by (simp add: client_deposit_def Let_def in_sync_def persisted_update_same
      find_client_update_other)

lemma client_withdraw_in_sync:
  assumes sync: "in_sync db c" and le: "amount \<le> balance c"
  shows "\<exists>db' c'. client_withdraw db c amount = (db', c', [], None) \<and>
      persisted_balance db' (client_id c) = Some (balance c - amount) \<and>
      client_id c' = client_id c \<and> balance c' = balance c - amount \<and>
      movements c' = movements c @ [Withdrawn amount] \<and>
      movements_table db' =
        movements_table db @ [(movements_seq db + 1, client_id c, ''Withdraw'', - amount)] \<and>
      (\<forall>y. y \<noteq> client_id c \<longrightarrow> find_client db' y = find_client db y)"
  using sync le in_sync_range [OF sync]
  by (simp add: client_withdraw_def Let_def in_sync_def persisted_update_same
      find_client_update_other)


lemma client_transfer_insufficient:
  "balance c < amount \<Longrightarrow> find_client db y = Inr (Some d) \<Longrightarrow>
   client_transfer db c y amount = (db, c, [Insufficient_funds], None)"
  by (simp add: client_transfer_def)

lemma client_transfer_missing:
  "find_client db y = Inr None \<Longrightarrow>
   client_transfer db c y amount = (db, c, [Transfer_target_not_found], None)"
  by (simp add: client_transfer_def)

lemma client_transfer_overflow:
  "\<not> sqlite_integer y \<Longrightarrow>
   client_transfer db c y amount = (db, c, [], Some OverflowError)"
  by (simp add: client_transfer_def find_client_overflow)

text \<open>A transfer between two different accounts that passes both tests.\<close>

lemma client_transfer_distinct:
  assumes sync: "in_sync db c" and dst: "persisted_balance db y = Some bd"
    and ne: "y \<noteq> client_id c" and le: "amount \<le> balance c"
  shows "\<exists>db' c'. client_transfer db c y amount = (db', c', [], None) \<and>
      persisted_balance db' (client_id c) = Some (balance c - amount) \<and>
      persisted_balance db' y = Some (bd + amount) \<and>
      client_id c' = client_id c \<and> balance c' = balance c - amount \<and>
      movements c' = movements c @ [Transfer_to y amount] \<and>
      movements_table db' =
        movements_table db @
          [(movements_seq db + 1, client_id c, ''Transfer Out'', - amount),
           (movements_seq db + 2, y, ''Transfer In'', amount)] \<and>
      (\<forall>z. z \<noteq> client_id c \<and> z \<noteq> y \<longrightarrow> find_client db' z = find_client db z)"
proof -
  let ?x = "client_id c"
  from dst obtain d where d: "find_client db y = Inr (Some d)" "balance d = bd" "client_id d = y"
    using persisted_find by blast
  from sync have src: "persisted_balance db ?x = Some (balance c)"
    by (simp add: in_sync_def)
  let ?db1 = "sql_update_balance db (balance c - amount) ?x"
  let ?db2 = "sql_update_balance ?db1 (bd + amount) y"
  let ?db3 = "sql_insert_movement ?db2 ?x ''Transfer Out'' (- amount)"
  let ?db4 = "sql_insert_movement ?db3 y ''Transfer In'' amount"
  let ?c' = "c\<lparr>balance := balance c - amount,
               movements := movements c @ [Transfer_to y amount]\<rparr>"
  have run: "client_transfer db c y amount = (?db4, ?c', [], None)"
    using d le in_sync_range [OF sync] by (simp add: client_transfer_def Let_def)
  have "persisted_balance ?db1 ?x = Some (balance c - amount)"
    using src by (rule persisted_update_same)
  with ne have bx: "persisted_balance ?db4 ?x = Some (balance c - amount)"
    by (simp add: persisted_update_other)
  from ne dst have "persisted_balance ?db1 y = Some bd"
    by (simp add: persisted_update_other)
  then have "persisted_balance ?db2 y = Some (bd + amount)"
    by (rule persisted_update_same)
  then have by': "persisted_balance ?db4 y = Some (bd + amount)"
    by simp
  have rest: "find_client ?db4 z = find_client db z" if "z \<noteq> ?x \<and> z \<noteq> y" for z
    using that by (simp add: find_client_update_other)
  have tbl: "movements_table ?db4 =
        movements_table db @
          [(movements_seq db + 1, ?x, ''Transfer Out'', - amount),
           (movements_seq db + 2, y, ''Transfer In'', amount)]"
    by simp
  have obj: "client_id ?c' = ?x" "balance ?c' = balance c - amount"
    "movements ?c' = movements c @ [Transfer_to y amount]"
    by simp_all
  from run bx by' rest tbl obj show ?thesis by blast
qed

text \<open>
  A transfer between two different accounts has the shape C3 asks for: either nothing
  changes, or the source loses the amount, the destination gains it, and one
  \<open>'Transfer Out'\<close> row and one \<open>'Transfer In'\<close> row are appended.
\<close>

lemma client_transfer_shape_distinct:
  assumes sync: "in_sync db c" and ne: "y \<noteq> client_id c"
  shows "(\<exists>out err. client_transfer db c y amount = (db, c, out, err) \<and>
            (out \<noteq> [] \<or> err \<noteq> None)) \<or>
     (\<exists>db' c' bd. client_transfer db c y amount = (db', c', [], None) \<and>
        persisted_balance db y = Some bd \<and>
        persisted_balance db' (client_id c) = Some (balance c - amount) \<and>
        persisted_balance db' y = Some (bd + amount) \<and>
        movements_table db' =
          movements_table db @
            [(movements_seq db + 1, client_id c, ''Transfer Out'', - amount),
             (movements_seq db + 2, y, ''Transfer In'', amount)])"
proof (cases "find_client db y")
  case (Inl e)
  then show ?thesis by (simp add: client_transfer_def)
next
  case (Inr r)
  show ?thesis
  proof (cases r)
    case None
    with Inr show ?thesis by (simp add: client_transfer_missing)
  next
    case (Some d)
    show ?thesis
    proof (cases "amount \<le> balance c")
      case False
      with Inr Some show ?thesis by (simp add: client_transfer_insufficient)
    next
      case True
      from Inr Some have "persisted_balance db y = Some (balance d)"
        by (simp add: persisted_balance_def)
      from client_transfer_distinct [OF sync this ne True] this
      show ?thesis by blast
    qed
  qed
qed

section \<open>Withdrawal\<close>




section \<open>Transfers\<close>




text \<open>
  C6, as amended. When the destination id is an SQLite integer that is not in
  \<open>clients\<close>, \<open>client_transfer\<close> prints "Client to transfer to not found." and returns the
  database and the source object as they were: no balance changes and no movement is
  created. When the destination id is not an SQLite integer, the lookup raises
  \<open>OverflowError\<close>: nothing is printed, and again nothing is changed.
\<close>

theorem transfer_to_missing_destination:
  "(find_client db client_to_id = Inr None \<longrightarrow>
      client_transfer db client_from client_to_id amount =
        (db, client_from, [Transfer_target_not_found], None)) \<and>
   (\<not> sqlite_integer client_to_id \<longrightarrow>
      client_transfer db client_from client_to_id amount =
        (db, client_from, [], Some OverflowError))"
  by (simp add: client_transfer_missing client_transfer_overflow)

theorem transfer_to_missing_destination_witness:
  "find_client alice_bob 7 = Inr None \<and> \<not> sqlite_integer (2 ^ 63) \<and>
   client_transfer alice_bob alice 7 20 =
     (alice_bob, alice, [Transfer_target_not_found], None) \<and>
   client_transfer alice_bob alice (2 ^ 63) 20 = (alice_bob, alice, [], Some OverflowError)"
proof -
  have none: "find_client alice_bob 7 = Inr None"
    by (simp add: alice_bob_eq find_client_def sql_select_client_def sqlite_integer_def)
  have big: "\<not> sqlite_integer (2 ^ 63)"
    by (simp add: sqlite_integer_def)
  from transfer_to_missing_destination [of alice_bob 7 alice 20]
    transfer_to_missing_destination [of alice_bob "2 ^ 63" alice 20] none big
  show ?thesis by simp
qed

text \<open>
  C6 as stated, for every destination id that does not resolve, fails for an id that
  is no SQLite integer: \<open>main\<close> reads the id with \<open>int(input())\<close>, and for \<open>2 ^ 63\<close> the
  \<open>SELECT\<close> of \<open>find_client\<close> raises \<open>OverflowError\<close>. Nothing is reported and the
  program ends.
\<close>

theorem transfer_to_huge_id_raises:
  "main_loop initialize_database
     [CREATE_ACCOUNT ''Alice'' None,
      CLIENT_ACTIONS 1 [DEPOSIT 100, TRANSFER (2 ^ 63) 20, CHECK_BALANCE]] =
   (\<lparr>clients_table = [(1, ''Alice'', 100, None)],
     movements_table = [(1, 1, ''Deposit'', 100)], movements_seq = 1\<rparr>,
    [], Some OverflowError)"
  by (simp add: bank_defs)

text \<open>
  C3 asks every transfer to leave both balances unchanged or to move the amount from
  the source to the destination. Between two different accounts it does
  (\<open>client_transfer_shape_distinct\<close>). A transfer of 30 from Alice, at 100, to her own id
  does neither: the first \<open>UPDATE\<close> writes 70, the second overwrites it with 130, and the
  two movement rows are appended.
\<close>

theorem self_transfer_breaks_shape:
  "find_client alice_bob 1 = Inr (Some alice) \<and>
   persisted_balance alice_bob 1 = Some 100 \<and>
   client_transfer alice_bob alice 1 30 =
     (\<lparr>clients_table = [(1, ''Alice'', 130, None), (2, ''Bob'', 0, None)],
       movements_table =
         [(1, 1, ''Deposit'', 100), (2, 1, ''Transfer Out'', - 30), (3, 1, ''Transfer In'', 30)],
       movements_seq = 3\<rparr>,
      alice\<lparr>balance := 70, movements := [Transfer_to 1 30]\<rparr>, [], None) \<and>
   persisted_balance (fst (client_transfer alice_bob alice 1 30)) 1 = Some 130"
  by (simp add: alice_bob_eq alice_def persisted_balance_def bank_defs)

section \<open>Amounts that are not positive\<close>




section \<open>Listing movements\<close>

text \<open>
  C8 asks \<open>client_show_movements\<close> for every movement ever recorded for the account.
  It prints \<open>Client.movements\<close>, which \<open>find_client\<close> starts empty and which no method
  fills from the \<open>movements\<close> table. Alice deposits 100 in one session and asks for her
  movements in the next: only the header line is printed, while the table holds her
  \<open>'Deposit'\<close> row.
\<close>

theorem show_movements_forgets_earlier_sessions:
  "main_loop initialize_database
     [CREATE_ACCOUNT ''Alice'' None, CLIENT_ACTIONS 1 [DEPOSIT 100],
      CLIENT_ACTIONS 1 [SHOW_MOVEMENTS]] =
   (\<lparr>clients_table = [(1, ''Alice'', 100, None)],
     movements_table = [(1, 1, ''Deposit'', 100)], movements_seq = 1\<rparr>,
    [Movements_header 1], None) \<and>
   movements_of (fst (main_loop initialize_database
     [CREATE_ACCOUNT ''Alice'' None, CLIENT_ACTIONS 1 [DEPOSIT 100],
      CLIENT_ACTIONS 1 [SHOW_MOVEMENTS]])) 1 = [(1, 1, ''Deposit'', 100)]"
  by (simp add: bank_defs movements_of_def)

section \<open>Reading\<close>

lemma client_action_read:
  "is_read a \<Longrightarrow>
   client_action db client a = (db, client, fst (snd (snd (client_action db client a))), None)"
  by (cases a) simp_all

text \<open>
  C10. Any sequence of \<open>CHECK_BALANCE\<close> and \<open>SHOW_MOVEMENTS\<close> requests, in any order and
  of any length, leaves the whole database (all balances, all movements) and the client
  object as they were, and raises nothing; so does a session of the main menu made of
  such requests.
\<close>

theorem reads_leave_ledger_unchanged:
  "list_all is_read reqs \<Longrightarrow>
   (\<exists>out. client_loop db client reqs = (db, client, out, None)) \<and>
   (find_client db x = Inr (Some client) \<longrightarrow>
      fst (bank_action db (CLIENT_ACTIONS x reqs)) = db)"
proof -
  assume "list_all is_read reqs"
  then have "\<exists>out. client_loop db client reqs = (db, client, out, None)"
  proof (induction reqs)
    case Nil
    show ?case by simp
  next
    case (Cons a as)
    then have "is_read a" and "\<exists>out. client_loop db client as = (db, client, out, None)"
      by simp_all
    then obtain out where "client_loop db client as = (db, client, out, None)" by blast
    moreover from \<open>is_read a\<close> obtain o1 where "client_action db client a = (db, client, o1, None)"
      using client_action_read by blast
    ultimately show ?case by simp
  qed
  then show ?thesis by auto
qed

theorem reads_leave_ledger_unchanged_witness:
  "list_all is_read [CHECK_BALANCE, SHOW_MOVEMENTS, SHOW_MOVEMENTS, CHECK_BALANCE] \<and>
   find_client alice_bob 1 = Inr (Some alice) \<and>
   client_loop alice_bob alice [CHECK_BALANCE, SHOW_MOVEMENTS, SHOW_MOVEMENTS, CHECK_BALANCE] =
     (alice_bob, alice,
      [Balance_line 1 100, Movements_header 1, Movements_header 1, Balance_line 1 100],
      None) \<and>
   fst (bank_action alice_bob
         (CLIENT_ACTIONS 1 [CHECK_BALANCE, SHOW_MOVEMENTS, SHOW_MOVEMENTS, CHECK_BALANCE])) =
     alice_bob"
proof -
  let ?reqs = "[CHECK_BALANCE, SHOW_MOVEMENTS, SHOW_MOVEMENTS, CHECK_BALANCE]"
  have reads: "list_all is_read ?reqs" by simp
  from reads_leave_ledger_unchanged [OF reads, of alice_bob alice 1] find_alice
  obtain out where run: "client_loop alice_bob alice ?reqs = (alice_bob, alice, out, None)"
    and top: "fst (bank_action alice_bob (CLIENT_ACTIONS 1 ?reqs)) = alice_bob"
    by blast
  have "fst (snd (snd (client_loop alice_bob alice ?reqs))) =
     [Balance_line 1 100, Movements_header 1, Movements_header 1, Balance_line 1 100]"
    by (simp add: client_check_balance_def client_show_movements_def alice_def)
  with run have "out =
     [Balance_line 1 100, Movements_header 1, Movements_header 1, Balance_line 1 100]"
    by simp
  with run top reads find_alice show ?thesis by simp
qed

section \<open>Balances that are not negative\<close>

lemma nonneg_insert_movement [simp]:
  "nonneg_balances (sql_insert_movement db i act a) = nonneg_balances db"
  by (simp add: nonneg_balances_def sql_insert_movement_def)

lemma nonneg_update_balance:
  "nonneg_balances db \<Longrightarrow> 0 \<le> v \<Longrightarrow> nonneg_balances (sql_update_balance db v x)"
  by (auto simp: nonneg_balances_def sql_update_balance_def list_all_iff split: if_splits)

lemma nonneg_find_client:
  "nonneg_balances db \<Longrightarrow> find_client db y = Inr (Some d) \<Longrightarrow> 0 \<le> balance d"
  by (auto simp: nonneg_balances_def find_client_def sql_select_client_def list_all_iff
      split: if_splits option.splits dest!: find_in_set)

lemma nonneg_client_withdraw:
  "nonneg_balances db \<Longrightarrow> nonneg_balances (fst (client_withdraw db client amount))"
  by (simp add: client_withdraw_def Let_def nonneg_update_balance)

lemma nonneg_client_transfer:
  "nonneg_balances db \<Longrightarrow> 0 \<le> amount \<Longrightarrow>
   nonneg_balances (fst (client_transfer db client y amount))"
proof (cases "find_client db y")
  case (Inl e)
  assume "nonneg_balances db"
  with Inl show ?thesis by (simp add: client_transfer_def)
next
  case (Inr r)
  assume nn: "nonneg_balances db" and a: "0 \<le> amount"
  show ?thesis
  proof (cases r)
    case None
    with Inr nn show ?thesis by (simp add: client_transfer_def)
  next
    case (Some d)
    from nn Inr Some have "0 \<le> balance d" by (simp add: nonneg_find_client)
    with a have "0 \<le> balance d + amount" by simp
    with nn Inr Some show ?thesis
      by (simp add: client_transfer_def Let_def nonneg_update_balance)
  qed
qed

text \<open>
  C2, as amended. From a ledger without a negative balance, a sequence of withdrawals
  (of any amount) and of transfers of amounts that are not negative, made through any
  client object, leaves no account with a negative balance. (The list is arbitrary, so
  this holds after each of its requests.)
\<close>

theorem withdraw_transfer_keep_nonneg:
  "nonneg_balances db \<Longrightarrow> list_all withdraw_or_nonneg_transfer reqs \<Longrightarrow>
   nonneg_balances (fst (client_loop db client reqs))"
proof (induction reqs arbitrary: db client)
  case Nil
  then show ?case by simp
next
  case (Cons a as)
  obtain db1 client1 out1 err1 where step: "client_action db client a = (db1, client1, out1, err1)"
    by (cases "client_action db client a") auto
  from Cons.prems have a: "withdraw_or_nonneg_transfer a"
    and rest: "list_all withdraw_or_nonneg_transfer as" by simp_all
  have "nonneg_balances (fst (client_action db client a))"
  proof (cases a)
    case (WITHDRAW amount)
    with Cons.prems(1) show ?thesis by (simp add: nonneg_client_withdraw)
  next
    case (TRANSFER t amount)
    with Cons.prems(1) a show ?thesis by (simp add: nonneg_client_transfer)
  qed (use a in simp_all)
  with step have nn1: "nonneg_balances db1" by simp
  show ?case
  proof (cases err1)
    case (Some e)
    with step nn1 show ?thesis by simp
  next
    case None
    from Cons.IH [OF nn1 rest, of client1] step None show ?thesis
      by (cases "client_loop db1 client1 as") simp
  qed
qed

theorem withdraw_transfer_keep_nonneg_witness:
  "nonneg_balances alice_bob \<and>
   list_all withdraw_or_nonneg_transfer [WITHDRAW 30, TRANSFER 2 50, WITHDRAW (- 5), TRANSFER 1 10] \<and>
   nonneg_balances
     (fst (client_loop alice_bob alice [WITHDRAW 30, TRANSFER 2 50, WITHDRAW (- 5), TRANSFER 1 10])) \<and>
   clients_table
     (fst (client_loop alice_bob alice [WITHDRAW 30, TRANSFER 2 50, WITHDRAW (- 5), TRANSFER 1 10])) =
     [(1, ''Alice'', 35, None), (2, ''Bob'', 50, None)]"
proof -
  let ?reqs = "[WITHDRAW 30, TRANSFER 2 50, WITHDRAW (- 5), TRANSFER 1 10]"
  have start: "nonneg_balances alice_bob" by (simp add: alice_bob_eq nonneg_balances_def)
  have reqs: "list_all withdraw_or_nonneg_transfer ?reqs" by simp
  have "clients_table (fst (client_loop alice_bob alice ?reqs)) =
     [(1, ''Alice'', 35, None), (2, ''Bob'', 50, None)]"
    by (simp add: alice_bob_eq alice_def bank_defs)
  with withdraw_transfer_keep_nonneg [OF start reqs, of alice] start reqs
  show ?thesis by simp
qed

text \<open>
  C2 as stated fails: no method checks the sign of the amount, and a transfer of - 50
  from Alice to Bob, both at 0, passes the test \<open>amount \<le> balance\<close> and leaves Bob
  at - 50.
\<close>

theorem negative_transfer_overdraws_destination:
  "nonneg_balances (fst (main_loop initialize_database
      [CREATE_ACCOUNT ''Alice'' None, CREATE_ACCOUNT ''Bob'' None])) \<and>
   fst (main_loop initialize_database
      [CREATE_ACCOUNT ''Alice'' None, CREATE_ACCOUNT ''Bob'' None,
       CLIENT_ACTIONS 1 [TRANSFER 2 (- 50)]]) =
     \<lparr>clients_table = [(1, ''Alice'', 50, None), (2, ''Bob'', - 50, None)],
      movements_table = [(1, 1, ''Transfer Out'', 50), (2, 2, ''Transfer In'', - 50)],
      movements_seq = 2\<rparr> \<and>
   \<not> nonneg_balances (fst (main_loop initialize_database
      [CREATE_ACCOUNT ''Alice'' None, CREATE_ACCOUNT ''Bob'' None,
       CLIENT_ACTIONS 1 [TRANSFER 2 (- 50)]]))"
  by (simp add: bank_defs nonneg_balances_def)

section \<open>Reconciliation\<close>

lemma find_filter_rows_other:
  "y \<noteq> x \<Longrightarrow>
   find (\<lambda>(i, n, b, oc). i = y) (filter (\<lambda>(i, n, b, oc). i \<noteq> x) rows)
   = find (\<lambda>(i, n, b, oc). i = y) rows"
  by (induction rows) auto

lemma find_filter_rows_same:
  "find (\<lambda>(i, n, b, oc). i = x) (filter (\<lambda>(i, n, b, oc). i \<noteq> x) rows) = None"
  by (induction rows) auto

lemma movements_of_close_other:
  "y \<noteq> x \<Longrightarrow> movements_of (fst (close_account db x)) y = movements_of db y"
  by (auto simp: movements_of_def close_account_def sql_delete_movements_def
      sql_delete_client_def intro!: filter_cong)


lemma persisted_row:
  "persisted_balance db x = Some b \<Longrightarrow> \<exists>n oc. (x, n, b, oc) \<in> set (clients_table db)"
proof -
  assume "persisted_balance db x = Some b"
  then obtain r where r: "find (\<lambda>(i, n, b, oc). i = x) (clients_table db) = Some r"
    and b: "balance (Client_init r) = b"
    by (auto simp: persisted_balance_def find_client_def sql_select_client_def
        split: if_splits option.splits)
  obtain i n b0 oc where [simp]: "r = (i, n, b0, oc)" by (cases r) auto
  from find_holds [OF r] find_in_set [OF r] b show ?thesis by auto
qed

lemma reconciled_persisted:
  "reconciled db \<Longrightarrow> persisted_balance db x = Some b \<Longrightarrow> b = movement_sum db x"
  by (auto simp: reconciled_def list_all_iff dest!: persisted_row)

lemma persisted_owner:
  "persisted_balance db x = Some b \<Longrightarrow> x \<in> fst ` set (clients_table db)"
  by (force dest!: persisted_row)

lemma in_update_rows:
  "(i, n, b, oc) \<in> set (clients_table (sql_update_balance db v x)) \<Longrightarrow>
   (i = x \<and> b = v) \<or> (i \<noteq> x \<and> (i, n, b, oc) \<in> set (clients_table db))"
  by (auto simp: sql_update_balance_def split: if_splits)

lemma ids_update_balance [simp]:
  "fst ` set (clients_table (sql_update_balance db v x)) = fst ` set (clients_table db)"
  by (force simp: sql_update_balance_def image_iff split: if_splits)

lemma clients_insert_movement [simp]:
  "clients_table (sql_insert_movement db i act a) = clients_table db"
  by (simp add: sql_insert_movement_def)

lemma owned_update_balance [simp]:
  "movements_owned (sql_update_balance db v x) = movements_owned db"
  by (simp add: movements_owned_def)

lemma owned_insert_movement:
  "movements_owned db \<Longrightarrow> i \<in> fst ` set (clients_table db) \<Longrightarrow>
   movements_owned (sql_insert_movement db i act a)"
  by (simp add: movements_owned_def)

lemma movement_sum_update [simp]:
  "movement_sum (sql_update_balance db v x) i = movement_sum db i"
  by (simp add: movement_sum_def movements_of_def)

lemma movement_sum_insert:
  "movement_sum (sql_insert_movement db j act a) i =
     (if i = j then movement_sum db i + a else movement_sum db i)"
  by (simp add: movement_sum_def movements_of_def)

lemma reconciled_insert_update:
  "reconciled db \<Longrightarrow> v = movement_sum db x + a \<Longrightarrow>
   reconciled (sql_insert_movement (sql_update_balance db v x) x act a)"
  by (auto simp: reconciled_def list_all_iff movement_sum_insert dest!: in_update_rows)

lemma reconciled_transfer:
  "reconciled db \<Longrightarrow> x \<noteq> y \<Longrightarrow> v1 = movement_sum db x - a \<Longrightarrow>
   v2 = movement_sum db y + a \<Longrightarrow>
   reconciled (sql_insert_movement (sql_insert_movement
      (sql_update_balance (sql_update_balance db v1 x) v2 y) x act1 (- a)) y act2 a)"
  by (auto simp: reconciled_def list_all_iff movement_sum_insert dest!: in_update_rows)


lemma in_sync_owner: "in_sync db c \<Longrightarrow> client_id c \<in> fst ` set (clients_table db)"
  by (auto simp: in_sync_def dest: persisted_owner)

lemma in_sync_sum: "reconciled db \<Longrightarrow> in_sync db c \<Longrightarrow> balance c = movement_sum db (client_id c)"
  by (auto simp: in_sync_def dest: reconciled_persisted)

lemma client_deposit_ledger_ok:
  assumes ok: "ledger_ok db" and sync: "in_sync db c"
    and run: "client_deposit db c amount = (db', c', out, err)"
  shows "ledger_ok db' \<and> in_sync db' c'"
proof -
  from ok have rec: "reconciled db" and own: "movements_owned db"
    by (simp_all add: ledger_ok_def)
  let ?x = "client_id c"
  from run in_sync_range [OF sync] have db': "db' = sql_insert_movement
      (sql_update_balance db (balance c + amount) ?x) ?x ''Deposit'' amount"
    by (simp add: client_deposit_def Let_def)
  from in_sync_sum [OF rec sync] have "reconciled db'"
    unfolding db' by (intro reconciled_insert_update [OF rec]) simp
  moreover from own in_sync_owner [OF sync] have "movements_owned db'"
    unfolding db' by (simp add: owned_insert_movement)
  moreover from client_deposit_in_sync [OF sync, of amount] run have "in_sync db' c'"
    by (auto simp: in_sync_def)
  ultimately show ?thesis by (simp add: ledger_ok_def)
qed

lemma client_withdraw_ledger_ok:
  assumes ok: "ledger_ok db" and sync: "in_sync db c"
    and run: "client_withdraw db c amount = (db', c', out, err)"
  shows "ledger_ok db' \<and> in_sync db' c'"
proof (cases "amount \<le> balance c")
  case False
  with run ok sync show ?thesis by (simp add: client_withdraw_def)
next
  case True
  from ok have rec: "reconciled db" and own: "movements_owned db"
    by (simp_all add: ledger_ok_def)
  let ?x = "client_id c"
  from run True in_sync_range [OF sync] have db': "db' = sql_insert_movement
      (sql_update_balance db (balance c - amount) ?x) ?x ''Withdraw'' (- amount)"
    by (simp add: client_withdraw_def Let_def)
  from in_sync_sum [OF rec sync] have "reconciled db'"
    unfolding db' by (intro reconciled_insert_update [OF rec]) simp
  moreover from own in_sync_owner [OF sync] have "movements_owned db'"
    unfolding db' by (simp add: owned_insert_movement)
  moreover from client_withdraw_in_sync [OF sync True] run have "in_sync db' c'"
    by (auto simp: in_sync_def)
  ultimately show ?thesis by (simp add: ledger_ok_def)
qed

lemma client_transfer_ledger_ok:
  assumes ok: "ledger_ok db" and sync: "in_sync db c" and ne: "y \<noteq> client_id c"
    and run: "client_transfer db c y amount = (db', c', out, err)"
  shows "ledger_ok db' \<and> in_sync db' c'"
proof (cases "find_client db y")
  case (Inl e)
  with run ok sync show ?thesis by (simp add: client_transfer_def)
next
  case (Inr r)
  show ?thesis
  proof (cases r)
    case None
    with Inr run ok sync show ?thesis by (simp add: client_transfer_def)
  next
    case (Some d)
    show ?thesis
    proof (cases "amount \<le> balance c")
      case False
      with run ok sync Inr Some show ?thesis by (simp add: client_transfer_def)
    next
      case True
      from ok have rec: "reconciled db" and own: "movements_owned db"
        by (simp_all add: ledger_ok_def)
      let ?x = "client_id c"
      from Inr Some have fd: "find_client db y = Inr (Some d)" by simp
      from fd have dy: "client_id d = y" by (rule find_client_id)
      from fd have pd: "persisted_balance db y = Some (balance d)"
        by (rule persisted_of_find)
      from run True fd in_sync_range [OF sync]
      have db': "db' = sql_insert_movement (sql_insert_movement
          (sql_update_balance (sql_update_balance db (balance c - amount) ?x)
             (balance d + amount) y) ?x ''Transfer Out'' (- amount)) y ''Transfer In'' amount"
        by (simp add: client_transfer_def Let_def dy)
      from ne have ne': "?x \<noteq> y" by simp
      from in_sync_sum [OF rec sync] reconciled_persisted [OF rec pd] have "reconciled db'"
        unfolding db' by (intro reconciled_transfer [OF rec ne']) simp_all
      moreover from own in_sync_owner [OF sync] persisted_owner [OF pd]
      have "movements_owned db'"
        unfolding db' by (simp add: owned_insert_movement)
      moreover from client_transfer_distinct [OF sync pd ne True] run have "in_sync db' c'"
        by (auto simp: in_sync_def)
      ultimately show ?thesis by (simp add: ledger_ok_def)
    qed
  qed
qed

lemma client_action_ledger_ok:
  assumes ok: "ledger_ok db" and sync: "in_sync db c"
    and a: "no_self_transfer (client_id c) a"
    and run: "client_action db c a = (db', c', out, err)"
  shows "ledger_ok db' \<and> in_sync db' c' \<and> client_id c' = client_id c"
proof -
  have "client_id c' = client_id c"
    using run by (cases a) (auto simp: client_withdraw_def client_deposit_def
        client_transfer_def Let_def split: if_splits option.splits sum.splits)
  moreover have "ledger_ok db' \<and> in_sync db' c'"
  proof (cases a)
    case (WITHDRAW amount)
    with run client_withdraw_ledger_ok [OF ok sync] show ?thesis by simp
  next
    case (DEPOSIT amount)
    with run client_deposit_ledger_ok [OF ok sync] show ?thesis by simp
  next
    case (TRANSFER y amount)
    with a have "y \<noteq> client_id c" by simp
    from client_transfer_ledger_ok [OF ok sync this] run TRANSFER show ?thesis by simp
  qed (use run ok sync in auto)
  ultimately show ?thesis by simp
qed

lemma client_loop_ledger_ok:
  "ledger_ok db \<Longrightarrow> in_sync db c \<Longrightarrow> list_all (no_self_transfer (client_id c)) reqs \<Longrightarrow>
   ledger_ok (fst (client_loop db c reqs))"
proof (induction reqs arbitrary: db c)
  case Nil
  then show ?case by simp
next
  case (Cons a as)
  obtain db1 c1 out1 err1 where step: "client_action db c a = (db1, c1, out1, err1)"
    by (cases "client_action db c a") auto
  from Cons.prems have a: "no_self_transfer (client_id c) a"
    and rest: "list_all (no_self_transfer (client_id c)) as" by simp_all
  from client_action_ledger_ok [OF Cons.prems(1,2) a step]
  have ok1: "ledger_ok db1" and s1: "in_sync db1 c1" and i1: "client_id c1 = client_id c"
    by simp_all
  show ?case
  proof (cases err1)
    case (Some e)
    with step ok1 show ?thesis by simp
  next
    case None
    from rest i1 have "list_all (no_self_transfer (client_id c1)) as" by simp
    from Cons.IH [OF ok1 s1 this] step None show ?thesis
      by (cases "client_loop db1 c1 as") simp
  qed
qed

lemma fold_max_ge: "(a::int) \<le> fold max xs a"
proof (induction xs arbitrary: a)
  case Nil
  show ?case by simp
next
  case (Cons x xs)
  have "a \<le> max x a" by simp
  also have "max x a \<le> fold max xs (max x a)" by (rule Cons.IH)
  finally show ?case by simp
qed

lemma fold_max_mem: "(x::int) \<in> set xs \<Longrightarrow> x \<le> fold max xs a"
proof (induction xs arbitrary: a)
  case Nil
  then show ?case by simp
next
  case (Cons y ys)
  show ?case
  proof (cases "x = y")
    case True
    have "x \<le> max y a" using True by simp
    also have "max y a \<le> fold max ys (max y a)" by (rule fold_max_ge)
    finally show ?thesis by simp
  next
    case False
    with Cons.prems have "x \<in> set ys" by simp
    from Cons.IH [OF this] show ?thesis by simp
  qed
qed

lemma next_rowid_fresh: "next_rowid rows \<notin> fst ` set rows"
proof (cases rows)
  case Nil
  then show ?thesis by simp
next
  case (Cons r rs)
  have "i < next_rowid rows" if "i \<in> fst ` set rows" for i
  proof -
    from that Cons have "i = fst r \<or> i \<in> set (map fst rs)" by auto
    then have "i \<le> fold max (map fst rs) (fst r)"
      using fold_max_ge fold_max_mem by blast
    with Cons show ?thesis by simp
  qed
  then show ?thesis by blast
qed

lemma movement_sum_unowned:
  "movements_owned db \<Longrightarrow> i \<notin> fst ` set (clients_table db) \<Longrightarrow> movement_sum db i = 0"
proof -
  assume "movements_owned db" and "i \<notin> fst ` set (clients_table db)"
  then have "filter (\<lambda>(m, j, act, a). j = i) (movements_table db) = []"
    by (auto simp: movements_owned_def list_all_iff filter_empty_conv)
  then show ?thesis by (simp add: movement_sum_def movements_of_def)
qed

lemma create_account_ledger_ok:
  "ledger_ok db \<Longrightarrow> ledger_ok (create_account db name occ)"
proof -
  assume ok: "ledger_ok db"
  then have rec: "reconciled db" and own: "movements_owned db"
    by (simp_all add: ledger_ok_def)
  let ?db' = "create_account db name occ"
  have sums: "movement_sum ?db' i = movement_sum db i" for i
    by (simp add: movement_sum_def movements_of_def create_account_def sql_insert_client_def)
  from movement_sum_unowned [OF own next_rowid_fresh]
  have "movement_sum db (next_rowid (clients_table db)) = 0" .
  with rec have "reconciled ?db'"
    by (auto simp: reconciled_def list_all_iff sums)
       (auto simp: create_account_def sql_insert_client_def)
  moreover from own have "movements_owned ?db'"
    by (auto simp: movements_owned_def list_all_iff create_account_def sql_insert_client_def)
  ultimately show ?thesis by (simp add: ledger_ok_def)
qed

lemma close_account_ledger_ok:
  "ledger_ok db \<Longrightarrow> ledger_ok (fst (close_account db x))"
proof (cases "sqlite_integer x")
  case False
  assume "ledger_ok db"
  with False show ?thesis by (simp add: close_account_def)
next
  case True
  assume ok: "ledger_ok db"
  then have rec: "reconciled db" and own: "movements_owned db"
    by (simp_all add: ledger_ok_def)
  let ?db' = "fst (close_account db x)"
  have sums: "movement_sum ?db' i = movement_sum db i" if "i \<noteq> x" for i
    using movements_of_close_other [OF that] by (simp add: movement_sum_def)
  have rows: "r \<in> set (clients_table ?db') \<longleftrightarrow> r \<in> set (clients_table db) \<and> fst r \<noteq> x" for r
    using True
    by (cases r) (auto simp: close_account_def sql_delete_movements_def sql_delete_client_def)
  from rec have "reconciled ?db'"
    by (auto simp: reconciled_def list_all_iff rows sums)
  moreover from own True have "movements_owned ?db'"
    by (force simp: movements_owned_def list_all_iff close_account_def
        sql_delete_movements_def sql_delete_client_def image_iff)
  ultimately show ?thesis by (simp add: ledger_ok_def)
qed

lemma bank_action_ledger_ok:
  assumes ok: "ledger_ok db" and a: "no_self_transfers a"
  shows "ledger_ok (fst (bank_action db a))"
proof (cases a)
  case (CLOSE_ACCOUNT x)
  with close_account_ledger_ok [OF ok, of x] show ?thesis
    by (cases "close_account db x") simp
next
  case (CLIENT_ACTIONS x reqs)
  show ?thesis
  proof (cases "find_client db x")
    case (Inl e)
    with CLIENT_ACTIONS ok show ?thesis by simp
  next
    case (Inr r)
    show ?thesis
    proof (cases r)
      case None
      with Inr CLIENT_ACTIONS ok show ?thesis by simp
    next
      case (Some c)
      with Inr have fc: "find_client db x = Inr (Some c)" by simp
      then have sync: "in_sync db c" and i: "client_id c = x"
        by (simp_all add: in_sync_find find_client_id)
      from a CLIENT_ACTIONS i have "list_all (no_self_transfer (client_id c)) reqs" by simp
      from client_loop_ledger_ok [OF ok sync this] CLIENT_ACTIONS fc show ?thesis
        by (cases "client_loop db c reqs") simp
    qed
  qed
qed (use ok in \<open>simp_all add: create_account_ledger_ok\<close>)

lemma main_loop_ledger_ok:
  "ledger_ok db \<Longrightarrow> list_all no_self_transfers reqs \<Longrightarrow> ledger_ok (fst (main_loop db reqs))"
proof (induction reqs arbitrary: db)
  case Nil
  then show ?case by simp
next
  case (Cons a as)
  from Cons.prems have a: "no_self_transfers a" and rest: "list_all no_self_transfers as"
    by simp_all
  obtain db1 out1 err1 where step: "bank_action db a = (db1, out1, err1)"
    by (cases "bank_action db a") auto
  from bank_action_ledger_ok [OF Cons.prems(1) a] step have ok1: "ledger_ok db1" by simp
  show ?case
  proof (cases err1)
    case (Some e)
    with step ok1 show ?thesis by simp
  next
    case None
    from Cons.IH [OF ok1 rest] step None show ?thesis
      by (cases "main_loop db1 as") simp
  qed
qed

text \<open>
  Started on the empty database, the main loop keeps every balance equal to the sum of
  the account's movements as long as no session transfers to its own client.
\<close>

lemma reconciled_without_self_transfer:
  "list_all no_self_transfers reqs \<Longrightarrow> reconciled (fst (main_loop initialize_database reqs))"
proof -
  assume reqs: "list_all no_self_transfers reqs"
  have "ledger_ok initialize_database"
    by (simp add: ledger_ok_def reconciled_def movements_owned_def initialize_database_def)
  from main_loop_ledger_ok [OF this reqs] show ?thesis by (simp add: ledger_ok_def)
qed

text \<open>
  C1 asks every balance to be the sum of the account's movements after every sequence
  of requests. After Alice opens an account and deposits 100 it is; after she then
  transfers 30 to her own id, her balance is 130 and her movements sum to 100.
\<close>

theorem self_transfer_breaks_reconciliation:
  "reconciled (fst (main_loop initialize_database
      [CREATE_ACCOUNT ''Alice'' None, CLIENT_ACTIONS 1 [DEPOSIT 100]])) \<and>
   fst (main_loop initialize_database
      [CREATE_ACCOUNT ''Alice'' None, CLIENT_ACTIONS 1 [DEPOSIT 100, TRANSFER 1 30]]) =
     \<lparr>clients_table = [(1, ''Alice'', 130, None)],
      movements_table =
        [(1, 1, ''Deposit'', 100), (2, 1, ''Transfer Out'', - 30), (3, 1, ''Transfer In'', 30)],
      movements_seq = 3\<rparr> \<and>
   movement_sum (fst (main_loop initialize_database
      [CREATE_ACCOUNT ''Alice'' None, CLIENT_ACTIONS 1 [DEPOSIT 100, TRANSFER 1 30]])) 1 = 100 \<and>
   \<not> reconciled (fst (main_loop initialize_database
      [CREATE_ACCOUNT ''Alice'' None, CLIENT_ACTIONS 1 [DEPOSIT 100, TRANSFER 1 30]]))"
  by (simp add: bank_defs reconciled_def movement_sum_def movements_of_def)

section \<open>Closing an account\<close>

lemma find_client_None_iff:
  "find_client db x = Inr None \<longleftrightarrow> sqlite_integer x \<and> x \<notin> fst ` set (clients_table db)"
proof -
  have "find (\<lambda>(i, n, b, oc). i = x) rows = None \<longleftrightarrow> x \<notin> fst ` set rows"
    for rows :: "client_row list"
    by (induction rows) auto
  from this [of "clients_table db", symmetric] show ?thesis
    by (cases "find (\<lambda>(i, n, b, oc). i = x) (clients_table db)")
       (simp_all add: find_client_def sql_select_client_def)
qed

lemma ids_client_action:
  "fst ` set (clients_table (fst (client_action db c a))) = fst ` set (clients_table db)"
  by (cases a) (simp_all add: client_withdraw_def client_deposit_def client_transfer_def
      Let_def split: option.splits sum.splits)

lemma ids_client_loop:
  "fst ` set (clients_table (fst (client_loop db c reqs))) = fst ` set (clients_table db)"
proof (induction reqs arbitrary: db c)
  case Nil
  show ?case by simp
next
  case (Cons a as)
  obtain db1 c1 out1 err1 where step: "client_action db c a = (db1, c1, out1, err1)"
    by (cases "client_action db c a") auto
  from ids_client_action [of db c a] step
  have ids1: "fst ` set (clients_table db1) = fst ` set (clients_table db)" by simp
  show ?case
  proof (cases err1)
    case (Some e)
    with step ids1 show ?thesis by simp
  next
    case None
    from Cons.IH [of db1 c1] ids1 step None show ?thesis
      by (cases "client_loop db1 c1 as") simp
  qed
qed

lemma ids_close_account:
  "fst ` set (clients_table (fst (close_account db y))) \<subseteq> fst ` set (clients_table db)"
  by (cases "sqlite_integer y")
     (auto simp: close_account_def sql_delete_movements_def sql_delete_client_def)

lemma ids_bank_action:
  "creates_no_account a \<Longrightarrow>
   fst ` set (clients_table (fst (bank_action db a))) \<subseteq> fst ` set (clients_table db)"
proof (cases a)
  case (CLOSE_ACCOUNT y)
  with ids_close_account [of db y] show ?thesis
    by (cases "close_account db y") simp
next
  case (CLIENT_ACTIONS x reqs)
  show ?thesis
  proof (cases "find_client db x")
    case (Inl e)
    with CLIENT_ACTIONS show ?thesis by simp
  next
    case (Inr r)
    show ?thesis
    proof (cases r)
      case None
      with Inr CLIENT_ACTIONS show ?thesis by simp
    next
      case (Some c)
      with Inr CLIENT_ACTIONS ids_client_loop [of db c reqs] show ?thesis
        by (cases "client_loop db c reqs") simp
    qed
  qed
qed simp_all

text \<open>
  An id that is unknown stays unknown through any later requests that create no
  account.
\<close>

lemma closed_stays_closed:
  "find_client db x = Inr None \<Longrightarrow> list_all creates_no_account reqs \<Longrightarrow>
   find_client (fst (main_loop db reqs)) x = Inr None"
proof (induction reqs arbitrary: db)
  case Nil
  then show ?case by simp
next
  case (Cons a as)
  from Cons.prems have a: "creates_no_account a" and rest: "list_all creates_no_account as"
    by simp_all
  obtain db1 out1 err1 where step: "bank_action db a = (db1, out1, err1)"
    by (cases "bank_action db a") auto
  from ids_bank_action [OF a, of db] Cons.prems(1) step
  have gone1: "find_client db1 x = Inr None"
    by (auto simp: find_client_None_iff)
  show ?case
  proof (cases err1)
    case (Some e)
    with step gone1 show ?thesis by simp
  next
    case None
    from Cons.IH [OF gone1 rest] step None show ?thesis
      by (cases "main_loop db1 as") simp
  qed
qed

text \<open>
  C9, as amended. For an id that is an SQLite integer (every id of an account is),
  \<open>close_account\<close> raises nothing and removes the row of the account and every movement
  it owns: in the state it leaves, \<open>find_client\<close> returns nothing for the id, no row of
  \<open>clients\<close> has it and the account owns no row of \<open>movements\<close>, while the other accounts
  and their movements are as before. Every later lookup of the id returns nothing, and
  the main menu answers "Client not found.", as long as no account has been created
  since the closure.
\<close>

theorem close_account_removes:
  "sqlite_integer x \<Longrightarrow>
   (\<exists>db'. close_account db x = (db', None) \<and>
      find_client db' x = Inr None \<and>
      x \<notin> fst ` set (clients_table db') \<and>
      movements_of db' x = [] \<and>
      (\<forall>y. y \<noteq> x \<longrightarrow>
         find_client db' y = find_client db y \<and>
         movements_of db' y = movements_of db y) \<and>
      (\<forall>reqs sess. list_all creates_no_account reqs \<longrightarrow>
         find_client (fst (main_loop db' reqs)) x = Inr None \<and>
         bank_action (fst (main_loop db' reqs)) (CLIENT_ACTIONS x sess) =
           (fst (main_loop db' reqs), [Client_not_found], None)))"
proof -
  assume range: "sqlite_integer x"
  let ?db' = "sql_delete_movements (sql_delete_client db x) x"
  from range have run: "close_account db x = (?db', None)"
    by (simp add: close_account_def)
  then have db': "?db' = fst (close_account db x)" by simp
  have gone: "find_client ?db' x = Inr None"
    using range by (simp add: find_client_def sql_select_client_def
        sql_delete_movements_def sql_delete_client_def find_filter_rows_same)
  have norow: "x \<notin> fst ` set (clients_table ?db')"
    by (auto simp: sql_delete_movements_def sql_delete_client_def)
  have nomov: "movements_of ?db' x = []"
    by (auto simp: movements_of_def sql_delete_movements_def
        sql_delete_client_def filter_empty_conv)
  have others: "find_client ?db' y = find_client db y" if "y \<noteq> x" for y
    using that by (simp add: find_client_def sql_select_client_def
        sql_delete_movements_def sql_delete_client_def find_filter_rows_other)
  have movs: "movements_of ?db' y = movements_of db y" if "y \<noteq> x" for y
    using movements_of_close_other [OF that, of db] db' by simp
  have later: "find_client (fst (main_loop ?db' reqs)) x = Inr None \<and>
         bank_action (fst (main_loop ?db' reqs)) (CLIENT_ACTIONS x sess) =
           (fst (main_loop ?db' reqs), [Client_not_found], None)"
    if "list_all creates_no_account reqs" for reqs sess
    using closed_stays_closed [OF gone that] by simp
  from run gone norow nomov others movs later show ?thesis by blast
qed

theorem close_account_removes_witness:
  "sqlite_integer 1 \<and> (2::int) \<noteq> 1 \<and>
   list_all creates_no_account [CLIENT_ACTIONS 2 [DEPOSIT 10, TRANSFER 1 5], CLOSE_ACCOUNT 3] \<and>
   close_account alice_bob 1 =
     (\<lparr>clients_table = [(2, ''Bob'', 0, None)], movements_table = [], movements_seq = 1\<rparr>,
      None) \<and>
   find_client (fst (close_account alice_bob 1)) 1 = Inr None \<and>
   find_client (fst (close_account alice_bob 1)) 2 = find_client alice_bob 2 \<and>
   movements_of (fst (close_account alice_bob 1)) 2 = movements_of alice_bob 2 \<and>
   find_client (fst (main_loop (fst (close_account alice_bob 1))
     [CLIENT_ACTIONS 2 [DEPOSIT 10, TRANSFER 1 5], CLOSE_ACCOUNT 3])) 1 = Inr None"
proof -
  let ?reqs = "[CLIENT_ACTIONS 2 [DEPOSIT 10, TRANSFER 1 5], CLOSE_ACCOUNT 3]"
  have range: "sqlite_integer 1" by (simp add: sqlite_integer_def)
  have reqs: "list_all creates_no_account ?reqs" by simp
  have tables: "close_account alice_bob 1 =
     (\<lparr>clients_table = [(2, ''Bob'', 0, None)], movements_table = [], movements_seq = 1\<rparr>,
      None)"
    by (simp add: alice_bob_eq close_account_def sql_delete_movements_def
        sql_delete_client_def sqlite_integer_def)
  from close_account_removes [OF range, of alice_bob]
  obtain db' where ok: "close_account alice_bob 1 = (db', None)"
    "find_client db' 1 = Inr None"
    "\<forall>y. y \<noteq> 1 \<longrightarrow> find_client db' y = find_client alice_bob y \<and>
        movements_of db' y = movements_of alice_bob y"
    "\<forall>reqs sess. list_all creates_no_account reqs \<longrightarrow>
       find_client (fst (main_loop db' reqs)) 1 = Inr None \<and>
       bank_action (fst (main_loop db' reqs)) (CLIENT_ACTIONS 1 sess) =
         (fst (main_loop db' reqs), [Client_not_found], None)"
    by blast
  from ok(1) have db': "db' = fst (close_account alice_bob 1)" by simp
  from ok(3) have "find_client db' 2 = find_client alice_bob 2"
    "movements_of db' 2 = movements_of alice_bob 2" by simp_all
  moreover from ok(4) reqs have "find_client (fst (main_loop db' ?reqs)) 1 = Inr None"
    by blast
  ultimately show ?thesis using range reqs tables ok(2) unfolding db' by simp
qed

text \<open>
  C9 as stated, for every later lookup, fails: \<open>clients.id\<close> has no \<open>AUTOINCREMENT\<close>, so
  the largest id is given out again. Alice and Bob open accounts, Bob's account 2 is
  closed, Carol opens one and is given id 2: a lookup of 2 finds her account.
\<close>

theorem closed_id_reissued:
  "main_loop initialize_database
     [CREATE_ACCOUNT ''Alice'' None, CREATE_ACCOUNT ''Bob'' None, CLOSE_ACCOUNT 2,
      CREATE_ACCOUNT ''Carol'' None, CLIENT_ACTIONS 2 [CHECK_BALANCE]] =
   (\<lparr>clients_table = [(1, ''Alice'', 0, None), (2, ''Carol'', 0, None)],
     movements_table = [], movements_seq = 0\<rparr>, [Balance_line 2 0], None) \<and>
   find_client (fst (main_loop initialize_database
     [CREATE_ACCOUNT ''Alice'' None, CREATE_ACCOUNT ''Bob'' None, CLOSE_ACCOUNT 2,
      CREATE_ACCOUNT ''Carol'' None])) 2 =
     Inr (Some \<lparr>client_id = 2, first_name = ''Carol'', balance = 0, occupation = None,
                 movements = []\<rparr>)"
  by (simp add: bank_defs)

end
